theory Spec2Isabelle
  imports Complex_Main "HOL-Library.Sublist" "HOL-Library.Log_Nat"
begin

section \<open>Strings\<close>

text \<open>
  A Python string is modelled as a \<^typ>\<open>string\<close> whose characters are the code points
  0 to 255. On that range \<open>str.isspace\<close> holds for the code points 9 to 13, 28 to 32,
  133 and 160, and the one-character lower-casing that a case-insensitive regular
  expression applies maps \<open>A\<close> to \<open>Z\<close> and the code points 192 to 222 (215 apart) to
  the code point 32 above.
\<close>

definition py_isspace :: "char \<Rightarrow> bool" where
  "py_isspace c =
     (let n = (of_char c :: nat)
      in (9 \<le> n \<and> n \<le> 13) \<or> (28 \<le> n \<and> n \<le> 32) \<or> n = 133 \<or> n = 160)"

definition py_lower :: "char \<Rightarrow> char" where
  "py_lower c =
     (let n = (of_char c :: nat)
      in if (65 \<le> n \<and> n \<le> 90) \<or> (192 \<le> n \<and> n \<le> 222 \<and> n \<noteq> 215)
         then char_of (n + 32) else c)"

text \<open>\<open>x.split(",")\<close>: the fragments between the separators; never the empty list.\<close>

fun split_on :: "char \<Rightarrow> string \<Rightarrow> string list" where
  "split_on sep [] = [[]]"
| "split_on sep (c # cs) =
     (if c = sep then [] # split_on sep cs
      else (case split_on sep cs of
              [] \<Rightarrow> [[c]]
            | w # ws \<Rightarrow> (c # w) # ws))"

text \<open>\<open>d.strip()\<close>: leading and trailing white space removed.\<close>

definition strip :: "string \<Rightarrow> string" where
  "strip s = rev (dropWhile py_isspace (rev (dropWhile py_isspace s)))"

text \<open>
  The lambda of the derived column:
  \<^verbatim>\<open>lambda x: [d.strip() for d in x.split(",") if d.strip()]\<close>
\<close>

definition parse_damages :: "string \<Rightarrow> string list" where
  "parse_damages x = map strip (filter (\<lambda>d. strip d \<noteq> []) (split_on (CHR '','') x))"

text \<open>
  The wording of the specification: split on commas, trim each fragment, discard the
  empty fragments.
\<close>

definition split_trim_discard :: "string \<Rightarrow> string list" where
  "split_trim_discard x = filter (\<lambda>d. d \<noteq> []) (map strip (split_on (CHR '','') x))"

text \<open>Joining fragments with a separator, the inverse of \<^const>\<open>split_on\<close>.\<close>

fun join_with :: "char \<Rightarrow> string list \<Rightarrow> string" where
  "join_with sep [] = []"
| "join_with sep [w] = w"
| "join_with sep (w # v # ws) = w @ sep # join_with sep (v # ws)"

section \<open>Regular expressions\<close>

text \<open>
  \<open>Series.str.contains(query, case=False, na=False)\<close> leaves \<open>regex\<close> at its default
  \<open>True\<close>: the query is compiled by the regular-expression library with
  \<open>re.IGNORECASE\<close> and each cell is searched with the compiled pattern. The patterns
  made of ordinary characters and of the dot are interpreted here. For every other
  pattern what the library does is a parameter of the model: it raises \<open>re.error\<close>
  (\<open>None\<close>) or gives the search that tells whether a cell has a match.
\<close>

datatype atom = Lit char | Any_Char

definition re_special :: "char \<Rightarrow> bool" where
  "re_special c = (c \<in> set ''.^$*+?{}[]|()'' \<or> c = CHR 0x5C)"

fun plain_pattern :: "string \<Rightarrow> atom list option" where
  "plain_pattern [] = Some []"
| "plain_pattern (c # cs) =
     (if c = CHR ''.'' then map_option ((#) Any_Char) (plain_pattern cs)
      else if re_special c then None
      else map_option ((#) (Lit c)) (plain_pattern cs))"

fun atom_matches :: "atom \<Rightarrow> char \<Rightarrow> bool" where
  "atom_matches (Lit p) c = (py_lower c = py_lower p)"
| "atom_matches Any_Char c = (c \<noteq> CHR 0x0A)"

fun match_here :: "atom list \<Rightarrow> string \<Rightarrow> bool" where
  "match_here [] s = True"
| "match_here (a # as) [] = False"
| "match_here (a # as) (c # s) = (atom_matches a c \<and> match_here as s)"

fun re_search :: "atom list \<Rightarrow> string \<Rightarrow> bool" where
  "re_search p [] = match_here p []"
| "re_search p (c # s) = (match_here p (c # s) \<or> re_search p s)"

type_synonym re_library = "string \<Rightarrow> (string \<Rightarrow> bool) option"

text \<open>\<open>re.compile(pat, flags=re.IGNORECASE)\<close>, as the search of the compiled pattern.\<close>

definition re_compile :: "re_library \<Rightarrow> string \<Rightarrow> (string \<Rightarrow> bool) option" where
  "re_compile lib q =
     (case plain_pattern q of Some pat \<Rightarrow> Some (re_search pat) | None \<Rightarrow> lib q)"

text \<open>
  The wording of the specification: the field contains the query as a case-insensitive
  substring.
\<close>

definition contains_ci :: "string \<Rightarrow> string \<Rightarrow> bool" where
  "contains_ci q s = sublist (map py_lower q) (map py_lower s)"

section \<open>The table\<close>

datatype column =
  Room_No | Tower | Damages_Found | Severity_Score | Image_URL | Damage_Type_List

text \<open>
  One row. A cell of a text column is a string or missing (\<open>NaN\<close>, here \<open>None\<close>), a
  cell of the severity column a number or missing. The field of a column that the frame
  does not have is never read.
\<close>

record report =
  room_no :: "string option"
  tower :: "string option"
  damages_found :: "string option"
  severity_score :: "real option"
  image_url :: "string option"
  damage_type_list :: "string list"

record dataframe =
  columns :: "column list"
  rows :: "report list"

text \<open>The exceptions the modelled code can raise.\<close>

datatype error = IndexingError | KeyError | ParseError | ReError

text \<open>
  A series taken from a frame is aligned with the frame's rows; the fallback
  \<open>pd.Series(dtype=str)\<close> of \<open>DataFrame.get\<close> has an index of its own with no entry.
\<close>

datatype 'a series = Aligned "'a list" | Empty_Series

definition df_get :: "dataframe \<Rightarrow> column \<Rightarrow> (report \<Rightarrow> 'a) \<Rightarrow> 'a series" where
  "df_get df col field =
     (if col \<in> set (columns df) then Aligned (map field (rows df)) else Empty_Series)"

text \<open>\<open>na=False\<close>: a missing cell has no match.\<close>

definition cell_match :: "(string \<Rightarrow> bool) \<Rightarrow> string option \<Rightarrow> bool" where
  "cell_match m x = (case x of None \<Rightarrow> False | Some s \<Rightarrow> m s)"

fun str_contains :: "(string \<Rightarrow> bool) \<Rightarrow> string option series \<Rightarrow> bool series" where
  "str_contains m (Aligned xs) = Aligned (map (cell_match m) xs)"
| "str_contains m Empty_Series = Empty_Series"

text \<open>
  \<open>a | b\<close> on two boolean series, aligned on the union of the two indexes. A position
  the right operand lacks counts as false there, so the left mask is kept. A position the
  left operand lacks is missing in the result and is then filled with false, whatever the
  right operand holds there.
\<close>

fun series_or :: "bool series \<Rightarrow> bool series \<Rightarrow> bool series" where
  "series_or (Aligned xs) (Aligned ys) = Aligned (map2 (\<or>) xs ys)"
| "series_or (Aligned xs) Empty_Series = Aligned xs"
| "series_or Empty_Series (Aligned ys) = Aligned (map (\<lambda>y. False) ys)"
| "series_or Empty_Series Empty_Series = Empty_Series"

fun isin :: "string list \<Rightarrow> string option series \<Rightarrow> bool series" where
  "isin vs (Aligned xs) =
     Aligned (map (\<lambda>x. case x of None \<Rightarrow> False | Some s \<Rightarrow> s \<in> set vs) xs)"
| "isin vs Empty_Series = Empty_Series"

text \<open>
  \<open>frame[mask]\<close> with a boolean series. A mask whose index does not cover the frame's
  rows cannot be aligned: \<open>IndexingError\<close>. The masks of \<open>str.contains\<close>, \<open>isin\<close> and
  the comparisons have the boolean dtype also when they have no entry, so that indexing a
  frame with no row by them returns that frame with its columns.
\<close>

fun getitem_bool :: "dataframe \<Rightarrow> bool series \<Rightarrow> error + dataframe" where
  "getitem_bool df (Aligned bs) =
     Inr (df\<lparr>rows := map snd (filter fst (zip bs (rows df)))\<rparr>)"
| "getitem_bool df Empty_Series =
     (if rows df = [] then Inr df else Inl IndexingError)"

section \<open>The derived column\<close>

text \<open>
  \<^verbatim>\<open>
  if "Damages Found" in df.columns:
      df["Damage Type List"] = df["Damages Found"].fillna("").apply(...)
  else:
      df["Damage Type List"] = [[] for _ in range(len(df))]
  \<close>
\<close>

definition set_column :: "column \<Rightarrow> column list \<Rightarrow> column list" where
  "set_column col cols = (if col \<in> set cols then cols else cols @ [col])"

definition fillna :: "string option \<Rightarrow> string" where
  "fillna x = (case x of None \<Rightarrow> [] | Some s \<Rightarrow> s)"

definition add_damage_type_list :: "dataframe \<Rightarrow> dataframe" where
  "add_damage_type_list df =
     (if Damages_Found \<in> set (columns df)
      then \<lparr>columns = set_column Damage_Type_List (columns df),
            rows = map (\<lambda>r. r\<lparr>damage_type_list := parse_damages (fillna (damages_found r))\<rparr>)
                     (rows df)\<rparr>
      else \<lparr>columns = set_column Damage_Type_List (columns df),
            rows = map (\<lambda>r. r\<lparr>damage_type_list := []\<rparr>) (rows df)\<rparr>)"

section \<open>Filtering\<close>

text \<open>
  The source reads the four selections from module-level variables; the model passes
  them as a record. The range is the pair of floats that the slider returns.
\<close>

record criteria =
  query :: string
  towers :: "string list"
  damage_types :: "string list"
  severity_range :: "(real \<times> real) option"

text \<open>\<^verbatim>\<open>if query: filtered = filtered[room.str.contains(..) | damages.str.contains(..)]\<close>\<close>

definition text_step :: "re_library \<Rightarrow> string \<Rightarrow> dataframe \<Rightarrow> error + dataframe" where
  "text_step lib q df =
     (if q = [] then Inr df
      else (case re_compile lib q of
              None \<Rightarrow> Inl ReError
            | Some m \<Rightarrow>
                getitem_bool df
                  (series_or (str_contains m (df_get df Room_No room_no))
                             (str_contains m (df_get df Damages_Found damages_found)))))"

text \<open>\<^verbatim>\<open>if towers: filtered = filtered[filtered.get("Tower", ...).isin(towers)]\<close>\<close>

definition tower_step :: "string list \<Rightarrow> dataframe \<Rightarrow> error + dataframe" where
  "tower_step ts df =
     (if ts = [] then Inr df else getitem_bool df (isin ts (df_get df Tower tower)))"

text \<open>
  \<^verbatim>\<open>
  if damage_types:
      filtered = filtered[
          filtered["Damage Type List"].apply(lambda lst: any(d in lst for d in damage_types))]
  \<close>
  \<open>filtered["Damage Type List"]\<close> raises \<open>KeyError\<close> without the column.
  \<open>Series.apply\<close> on a series with no entry returns a series with no entry of the same
  (object) dtype, which is not a boolean indexer: \<open>frame[key]\<close> then selects the columns
  named in the key, that is none.
\<close>

definition damage_step :: "string list \<Rightarrow> dataframe \<Rightarrow> error + dataframe" where
  "damage_step dts df =
     (if dts = [] then Inr df
      else if Damage_Type_List \<notin> set (columns df) then Inl KeyError
      else if rows df = [] then Inr (df\<lparr>columns := []\<rparr>)
      else getitem_bool df
             (Aligned (map (\<lambda>r. list_ex (\<lambda>d. d \<in> set (damage_type_list r)) dts) (rows df))))"

text \<open>
  \<^verbatim>\<open>
  if "Severity Score" in filtered.columns and severity_range:
      filtered = filtered[(filtered["Severity Score"] >= severity_range[0])
                          & (filtered["Severity Score"] <= severity_range[1])]
  \<close>
  The bounds are the two floats of the slider, and the column is compared with them as
  64-bit floats: a column of integers is converted first, which rounds an integer of
  more than 53 significant bits to the nearest float, a tie going to the even one. A
  score that is no integer is a float already. A comparison with a missing score is
  false.
\<close>

definition round_half_even :: "int \<Rightarrow> int \<Rightarrow> int" where
  "round_half_even a d =
     (let q = a div d; r = a mod d
      in if 2 * r < d \<or> (2 * r = d \<and> even q) then q else q + 1)"

definition float64_of_int :: "int \<Rightarrow> int" where
  "float64_of_int n =
     (if \<bar>n\<bar> \<le> 2 ^ 53 then n
      else (let d = 2 ^ nat (bitlen \<bar>n\<bar> - 53)
            in sgn n * (round_half_even \<bar>n\<bar> d * d)))"

definition float64 :: "real \<Rightarrow> real" where
  "float64 s = (if of_int \<lfloor>s\<rfloor> = s then of_int (float64_of_int \<lfloor>s\<rfloor>) else s)"

definition in_range :: "real \<times> real \<Rightarrow> real option \<Rightarrow> bool" where
  "in_range rng x =
     (case x of None \<Rightarrow> False | Some s \<Rightarrow> float64 s \<ge> fst rng \<and> float64 s \<le> snd rng)"

definition severity_step :: "(real \<times> real) option \<Rightarrow> dataframe \<Rightarrow> error + dataframe" where
  "severity_step sr df =
     (case sr of
        None \<Rightarrow> Inr df
      | Some rng \<Rightarrow>
          if Severity_Score \<in> set (columns df)
          then getitem_bool df (Aligned (map (\<lambda>r. in_range rng (severity_score r)) (rows df)))
          else Inr df)"

definition bind :: "error + 'a \<Rightarrow> ('a \<Rightarrow> error + 'b) \<Rightarrow> error + 'b" where
  "bind m f = (case m of Inl e \<Rightarrow> Inl e | Inr x \<Rightarrow> f x)"

definition apply_filters :: "re_library \<Rightarrow> dataframe \<Rightarrow> criteria \<Rightarrow> error + dataframe" where
  "apply_filters lib data c =
     bind (text_step lib (query c) data) (\<lambda>f1.
     bind (tower_step (towers c) f1) (\<lambda>f2.
     bind (damage_step (damage_types c) f2) (\<lambda>f3.
     severity_step (severity_range c) f3)))"

section \<open>Loading\<close>

text \<open>
  The two readers are the table library's; what one returns for a path is a parameter:
  the file is not there, the file does not parse, or a table.
\<close>

datatype read_result = File_Not_Found | Unparsable | Table dataframe

record readers =
  read_parquet :: "string \<Rightarrow> read_result"
  read_csv :: "string \<Rightarrow> read_result"

text \<open>
  \<^verbatim>\<open>
  for path in ("data/damage_data.parquet", "data/damage_data.csv"):
      try:
          if path.endswith("parquet"):
              return pd.read_parquet(path)
          return pd.read_csv(path)
      except FileNotFoundError:
          continue
  return pd.DataFrame()
  \<close>
\<close>

definition read_path :: "readers \<Rightarrow> string \<Rightarrow> read_result" where
  "read_path rd path =
     (if suffix ''parquet'' path then read_parquet rd path else read_csv rd path)"

fun load_from :: "readers \<Rightarrow> string list \<Rightarrow> error + dataframe" where
  "load_from rd [] = Inr \<lparr>columns = [], rows = []\<rparr>"
| "load_from rd (path # paths) =
     (case read_path rd path of
        File_Not_Found \<Rightarrow> load_from rd paths
      | Unparsable \<Rightarrow> Inl ParseError
      | Table t \<Rightarrow> Inr t)"

definition load_data :: "readers \<Rightarrow> error + dataframe" where
  "load_data rd = load_from rd [''data/damage_data.parquet'', ''data/damage_data.csv'']"

section \<open>The sample of the source's self-test\<close>

definition sample_101 :: report where
  "sample_101 = \<lparr>room_no = Some ''101'', tower = Some ''A'',
     damages_found = Some ''Water leak'', severity_score = Some 5, image_url = None,
     damage_type_list = [''Water leak'']\<rparr>"

definition sample_102 :: report where
  "sample_102 = \<lparr>room_no = Some ''102'', tower = Some ''B'',
     damages_found = Some ''Cracked wall'', severity_score = Some 7, image_url = None,
     damage_type_list = [''Cracked wall'']\<rparr>"

definition sample :: dataframe where
  "sample = \<lparr>columns = [Room_No, Tower, Damages_Found, Severity_Score, Damage_Type_List],
     rows = [sample_101, sample_102]\<rparr>"


text \<open>The first sample row with its damage label in lower case.\<close>

definition sample_lower :: dataframe where
  "sample_lower =
     sample\<lparr>rows := [sample_101\<lparr>damage_type_list := [''water leak'']\<rparr>, sample_102]\<rparr>"

text \<open>A loaded table of one row whose damages text is a lone comma.\<close>

definition comma_only :: dataframe where
  "comma_only = \<lparr>columns = [Room_No, Damages_Found],
     rows = [\<lparr>room_no = Some ''101'', tower = None, damages_found = Some '','',
              severity_score = None, image_url = None, damage_type_list = []\<rparr>]\<rparr>"

text \<open>
  A loaded table with neither the room-number nor the damages column; the derived list
  of such a table is empty in every row.
\<close>

definition no_text_columns :: dataframe where
  "no_text_columns = \<lparr>columns = [Tower, Severity_Score, Damage_Type_List],
     rows = [\<lparr>room_no = None, tower = Some ''A'', damages_found = None,
              severity_score = Some 5, image_url = None, damage_type_list = []\<rparr>]\<rparr>"

text \<open>The sample with the integer score \<open>2^53 + 1\<close> in its first row.\<close>

definition sample_big :: dataframe where
  "sample_big =
     sample\<lparr>rows := [sample_101\<lparr>severity_score := Some 9007199254740993\<rparr>, sample_102]\<rparr>"

section \<open>Basic facts\<close>

lemma mask_filter: "map snd (filter fst (zip (map p xs) xs)) = filter p xs"
  by (induction xs) auto

lemma bind_Inr [simp]: "bind (Inr x) f = f x"
  by (simp add: bind_def)

lemma bind_Inl [simp]: "bind (Inl e) f = Inl e"
  by (simp add: bind_def)

lemma text_step_empty [simp]: "text_step lib [] df = Inr df"
  by (simp add: text_step_def)

lemma tower_step_empty [simp]: "tower_step [] df = Inr df"
  by (simp add: tower_step_def)

lemma damage_step_empty [simp]: "damage_step [] df = Inr df"
  by (simp add: damage_step_def)

lemma severity_step_None [simp]: "severity_step None df = Inr df"
  by (simp add: severity_step_def)

lemma dataframe_rows_same [simp]: "df\<lparr>rows := rows df\<rparr> = df"
  by simp

text \<open>The three assertions of the source's self-test hold of the model.\<close>

lemma self_test_default:
  "apply_filters lib sample
     \<lparr>query = [], towers = [''A'', ''B''], damage_types = [], severity_range = Some (0, 10)\<rparr>
   = Inr sample"
  by code_simp

lemma self_test_keyword:
  "apply_filters lib sample
     \<lparr>query = ''101'', towers = [''A'', ''B''], damage_types = [], severity_range = Some (0, 10)\<rparr>
   = Inr (sample\<lparr>rows := [sample_101]\<rparr>)"
  by code_simp

lemma self_test_damage_type:
  "apply_filters lib sample
     \<lparr>query = [], towers = [''A'', ''B''], damage_types = [''Water leak''],
      severity_range = Some (0, 10)\<rparr>
   = Inr (sample\<lparr>rows := [sample_101]\<rparr>)"
  by code_simp

section \<open>The text predicate\<close>







lemma map2_or_map: "map2 (\<or>) (map f xs) (map g xs) = map (\<lambda>x. f x \<or> g x) xs"
  by (induction xs) auto

lemma getitem_bool_pointwise:
  "getitem_bool h (Aligned (map p (rows h))) = Inr (h\<lparr>rows := filter p (rows h)\<rparr>)"
  by (simp add: mask_filter)

lemma text_step_mask:
  assumes "re_compile lib q = Some m" and "q \<noteq> []" and "Room_No \<in> set (columns h)"
  shows "text_step lib q h =
     Inr (h\<lparr>rows := filter
        (\<lambda>r. cell_match m (room_no r)
           \<or> (Damages_Found \<in> set (columns h) \<and> cell_match m (damages_found r)))
        (rows h)\<rparr>)"
  using assms by (auto simp: text_step_def df_get_def map2_or_map mask_filter o_def)

lemma text_step_no_room:
  assumes "re_compile lib q = Some m" and "q \<noteq> []" and "Room_No \<notin> set (columns h)"
      and "Damages_Found \<in> set (columns h)"
  shows "text_step lib q h = Inr (h\<lparr>rows := []\<rparr>)"
proof -
  have "map snd (filter fst (zip (map (\<lambda>y. False) xs) xs)) = []" for xs :: "report list"
    by (induction xs) simp_all
  with assms show ?thesis by (simp add: text_step_def df_get_def o_def)
qed




section \<open>The two multi-selects\<close>

text \<open>
  C2, as amended. Both multi-selects are guarded by their truth value (\<open>if towers:\<close>,
  \<open>if damage_types:\<close>), so an empty towers selection imposes no restriction, exactly as
  an empty damage-type selection: either step returns the frame it is given, and with
  both selections empty, no query and no range, every dataset is returned unchanged.
\<close>

theorem empty_selections_inactive:
  "tower_step [] df = Inr df
   \<and> damage_step [] df = Inr df
   \<and> apply_filters lib df \<lparr>query = [], towers = [], damage_types = [], severity_range = None\<rparr>
       = Inr df
   \<and> apply_filters lib df \<lparr>query = q, towers = [], damage_types = dts, severity_range = sr\<rparr>
       = bind (text_step lib q df) (\<lambda>f. bind (damage_step dts f) (severity_step sr))"
  by (simp add: apply_filters_def)

text \<open>
  C2 as stated fails: with an empty towers selection (and the self-test's other
  defaults) both sample rows are returned, not zero rows.
\<close>

theorem empty_towers_counterexample:
  "\<forall>lib. apply_filters lib sample
       \<lparr>query = [], towers = [], damage_types = [], severity_range = Some (0, 10)\<rparr>
       = Inr sample
     \<and> length (rows sample) = 2"
proof (intro allI conjI)
  fix lib :: re_library
  show "apply_filters lib sample
       \<lparr>query = [], towers = [], damage_types = [], severity_range = Some (0, 10)\<rparr>
       = Inr sample"
    by code_simp
  show "length (rows sample) = 2" by (simp add: sample_def)
qed

section \<open>The severity predicate\<close>

lemma float64_of_int_small: "\<bar>n\<bar> \<le> 2 ^ 53 \<Longrightarrow> float64_of_int n = n"
  by (simp add: float64_of_int_def)

lemma float64_exact:
  assumes "\<bar>s\<bar> \<le> 2 ^ 53 \<or> of_int \<lfloor>s\<rfloor> \<noteq> s"
  shows "float64 s = s"
proof (cases "of_int \<lfloor>s\<rfloor> = s")
  case True
  with assms have "\<bar>s\<bar> \<le> 2 ^ 53" by simp
  moreover from True have "real_of_int \<bar>\<lfloor>s\<rfloor>\<bar> = \<bar>s\<bar>" by (simp only: of_int_abs)
  ultimately have "real_of_int \<bar>\<lfloor>s\<rfloor>\<bar> \<le> real_of_int (2 ^ 53)" by simp
  then have "\<bar>\<lfloor>s\<rfloor>\<bar> \<le> 2 ^ 53" by (simp only: of_int_le_iff)
  then have "float64_of_int \<lfloor>s\<rfloor> = \<lfloor>s\<rfloor>" by (rule float64_of_int_small)
  with True show ?thesis by (simp add: float64_def)
next
  case False
  then show ?thesis by (simp add: float64_def)
qed

lemma severity_step_eq:
  "severity_step sr df =
     Inr (case sr of
            None \<Rightarrow> df
          | Some (lo, hi) \<Rightarrow>
              if Severity_Score \<in> set (columns df)
              then df\<lparr>rows := filter (\<lambda>r. case severity_score r of
                                             None \<Rightarrow> False
                                           | Some s \<Rightarrow> lo \<le> float64 s \<and> float64 s \<le> hi)
                                  (rows df)\<rparr>
              else df)"
  by (cases sr) (auto simp: severity_step_def in_range_def mask_filter split: option.splits
      intro!: arg_cong2[where f = filter])

lemma filter_empty_range:
  fixes lo hi :: real
  assumes "hi < lo"
  shows "filter (\<lambda>r. case severity_score r of
                      None \<Rightarrow> False
                    | Some s \<Rightarrow> lo \<le> float64 s \<and> float64 s \<le> hi) xs
         = []"
  using assms by (induction xs) (auto split: option.splits)

lemma filter_exact_scores:
  assumes "\<forall>r\<in>set xs. \<forall>s. severity_score r = Some s
             \<longrightarrow> \<bar>s\<bar> \<le> 2 ^ 53 \<or> of_int \<lfloor>s\<rfloor> \<noteq> s"
  shows "filter (\<lambda>r. case severity_score r of
                      None \<Rightarrow> False
                    | Some s \<Rightarrow> lo \<le> float64 s \<and> float64 s \<le> hi) xs
         = filter (\<lambda>r. case severity_score r of
                      None \<Rightarrow> False
                    | Some s \<Rightarrow> lo \<le> s \<and> s \<le> hi) xs"
  using assms by (intro filter_cong) (auto simp: float64_exact split: option.splits)

text \<open>
  C3, as amended. The severity predicate is applied, after the other three, to the frame
  they leave. It is active if and only if a range is supplied and the frame has the
  severity-score column; when active it keeps exactly the rows with a score that, as a
  64-bit float, lies between the two bounds, both inclusive, so a row without a score is
  dropped, and a range with \<open>min > max\<close> gives the frame with no row, not an error.
  For a dataset whose scores are exact as floats, which the scores that are no integers
  and the integers up to \<open>2^53\<close> in magnitude are, the rows kept are exactly those with
  \<open>min \<le> score \<le> max\<close>.
\<close>

theorem severity_predicate:
  "apply_filters lib df \<lparr>query = [], towers = [], damage_types = [], severity_range = sr\<rparr>
     = Inr (case sr of
              None \<Rightarrow> df
            | Some (lo, hi) \<Rightarrow>
                if Severity_Score \<in> set (columns df)
                then df\<lparr>rows := filter (\<lambda>r. case severity_score r of
                                               None \<Rightarrow> False
                                             | Some s \<Rightarrow> lo \<le> float64 s \<and> float64 s \<le> hi)
                                    (rows df)\<rparr>
                else df)
   \<and> ((\<forall>r\<in>set (rows df). \<forall>s. severity_score r = Some s
          \<longrightarrow> \<bar>s\<bar> \<le> 2 ^ 53 \<or> of_int \<lfloor>s\<rfloor> \<noteq> s) \<longrightarrow>
        apply_filters lib df
          \<lparr>query = [], towers = [], damage_types = [], severity_range = sr\<rparr>
        = Inr (case sr of
                 None \<Rightarrow> df
               | Some (lo, hi) \<Rightarrow>
                   if Severity_Score \<in> set (columns df)
                   then df\<lparr>rows := filter (\<lambda>r. case severity_score r of
                                                  None \<Rightarrow> False
                                                | Some s \<Rightarrow> lo \<le> s \<and> s \<le> hi) (rows df)\<rparr>
                   else df))
   \<and> apply_filters lib df c
     = bind (apply_filters lib df (c\<lparr>severity_range := None\<rparr>))
         (severity_step (severity_range c))
   \<and> (hi < lo \<longrightarrow>
        apply_filters lib df
          \<lparr>query = [], towers = [], damage_types = [], severity_range = Some (lo, hi)\<rparr>
        = Inr (if Severity_Score \<in> set (columns df) then df\<lparr>rows := []\<rparr> else df))"
proof (intro conjI impI)
  show "apply_filters lib df
      \<lparr>query = [], towers = [], damage_types = [], severity_range = sr\<rparr>
     = Inr (case sr of
              None \<Rightarrow> df
            | Some (lo, hi) \<Rightarrow>
                if Severity_Score \<in> set (columns df)
                then df\<lparr>rows := filter (\<lambda>r. case severity_score r of
                                               None \<Rightarrow> False
                                             | Some s \<Rightarrow> lo \<le> float64 s \<and> float64 s \<le> hi)
                                    (rows df)\<rparr>
                else df)"
    by (simp add: apply_filters_def severity_step_eq)
next
  assume "\<forall>r\<in>set (rows df). \<forall>s. severity_score r = Some s
          \<longrightarrow> \<bar>s\<bar> \<le> 2 ^ 53 \<or> of_int \<lfloor>s\<rfloor> \<noteq> s"
  then show "apply_filters lib df
          \<lparr>query = [], towers = [], damage_types = [], severity_range = sr\<rparr>
        = Inr (case sr of
                 None \<Rightarrow> df
               | Some (lo, hi) \<Rightarrow>
                   if Severity_Score \<in> set (columns df)
                   then df\<lparr>rows := filter (\<lambda>r. case severity_score r of
                                                  None \<Rightarrow> False
                                                | Some s \<Rightarrow> lo \<le> s \<and> s \<le> hi) (rows df)\<rparr>
                   else df)"
    by (simp add: apply_filters_def severity_step_eq filter_exact_scores
        split: option.splits prod.splits)
next
  show "apply_filters lib df c
     = bind (apply_filters lib df (c\<lparr>severity_range := None\<rparr>))
         (severity_step (severity_range c))"
    by (simp add: apply_filters_def bind_def split: sum.splits)
next
  assume "hi < lo"
  then show "apply_filters lib df
          \<lparr>query = [], towers = [], damage_types = [], severity_range = Some (lo, hi)\<rparr>
        = Inr (if Severity_Score \<in> set (columns df) then df\<lparr>rows := []\<rparr> else df)"
    by (simp add: apply_filters_def severity_step_eq filter_empty_range)
qed

text \<open>
  The ranges of the specification's boundary example on the sample (scores 5 and 7):
  \<open>(5, 7)\<close> keeps both rows, \<open>(6, 7)\<close> the second, \<open>(8, 9)\<close> none, and the inverted
  range \<open>(8, 7)\<close> none.
\<close>

theorem severity_predicate_witness:
  "\<forall>lib. apply_filters lib sample
       \<lparr>query = [], towers = [], damage_types = [], severity_range = Some (5, 7)\<rparr>
       = Inr sample
     \<and> apply_filters lib sample
       \<lparr>query = [], towers = [], damage_types = [], severity_range = Some (6, 7)\<rparr>
       = Inr (sample\<lparr>rows := [sample_102]\<rparr>)
     \<and> apply_filters lib sample
       \<lparr>query = [], towers = [], damage_types = [], severity_range = Some (8, 9)\<rparr>
       = Inr (sample\<lparr>rows := []\<rparr>)
     \<and> (7::real) < 8
     \<and> apply_filters lib sample
       \<lparr>query = [], towers = [], damage_types = [], severity_range = Some (8, 7)\<rparr>
       = Inr (sample\<lparr>rows := []\<rparr>)"
proof (intro allI)
  fix lib :: re_library
  have inv: "(7::real) < 8" by simp
  have col: "Severity_Score \<in> set (columns sample)" by (simp add: sample_def)
  have exact: "\<forall>r\<in>set (rows sample). \<forall>s. severity_score r = Some s
          \<longrightarrow> \<bar>s\<bar> \<le> 2 ^ 53 \<or> of_int \<lfloor>s\<rfloor> \<noteq> s"
    by (simp add: sample_def sample_101_def sample_102_def)
  note sp = severity_predicate [where lib = lib and df = sample and hi = 7 and lo = 8]
  note plain = mp [OF conjunct1 [OF conjunct2 [OF sp]] exact]
  have a: "apply_filters lib sample
     \<lparr>query = [], towers = [], damage_types = [], severity_range = Some (5, 7)\<rparr> = Inr sample"
    by (subst plain) (simp add: sample_def sample_101_def sample_102_def)
  have b: "apply_filters lib sample
     \<lparr>query = [], towers = [], damage_types = [], severity_range = Some (6, 7)\<rparr>
       = Inr (sample\<lparr>rows := [sample_102]\<rparr>)"
    by (subst plain) (simp add: sample_def sample_101_def sample_102_def)
  have c: "apply_filters lib sample
     \<lparr>query = [], towers = [], damage_types = [], severity_range = Some (8, 9)\<rparr>
       = Inr (sample\<lparr>rows := []\<rparr>)"
    by (subst plain) (simp add: sample_def sample_101_def sample_102_def)
  have d: "apply_filters lib sample
     \<lparr>query = [], towers = [], damage_types = [], severity_range = Some (8, 7)\<rparr>
       = Inr (sample\<lparr>rows := []\<rparr>)"
    using conjunct2 [OF conjunct2 [OF conjunct2 [OF sp]]] inv col by simp
  from a b c inv d show "apply_filters lib sample
       \<lparr>query = [], towers = [], damage_types = [], severity_range = Some (5, 7)\<rparr>
       = Inr sample
     \<and> apply_filters lib sample
       \<lparr>query = [], towers = [], damage_types = [], severity_range = Some (6, 7)\<rparr>
       = Inr (sample\<lparr>rows := [sample_102]\<rparr>)
     \<and> apply_filters lib sample
       \<lparr>query = [], towers = [], damage_types = [], severity_range = Some (8, 9)\<rparr>
       = Inr (sample\<lparr>rows := []\<rparr>)
     \<and> (7::real) < 8
     \<and> apply_filters lib sample
       \<lparr>query = [], towers = [], damage_types = [], severity_range = Some (8, 7)\<rparr>
       = Inr (sample\<lparr>rows := []\<rparr>)"
    by blast
qed

text \<open>
  C3 as stated fails: a column of integer scores is compared as floats, and the score
  \<open>2^53 + 1\<close> rounds to \<open>2^53\<close>, so that with the range \<open>(0, 2^53)\<close> its row is kept
  although the score is above the upper bound.
\<close>

theorem severity_rounding_counterexample:
  "\<forall>lib. apply_filters lib sample_big
       \<lparr>query = [], towers = [], damage_types = [],
        severity_range = Some (0, 9007199254740992)\<rparr>
       = Inr sample_big
     \<and> map severity_score (rows sample_big) = [Some 9007199254740993, Some 7]
     \<and> \<not> ((9007199254740993::real) \<le> 9007199254740992)
     \<and> (9007199254740992::real) = 2 ^ 53"
proof (intro allI conjI)
  fix lib :: re_library
  have r: "float64 9007199254740993 = 9007199254740992"
    by code_simp
  have s: "float64 7 = 7" by (simp add: float64_exact)
  show "apply_filters lib sample_big
       \<lparr>query = [], towers = [], damage_types = [],
        severity_range = Some (0, 9007199254740992)\<rparr>
       = Inr sample_big"
    by (simp add: apply_filters_def severity_step_eq sample_big_def sample_def sample_101_def
        sample_102_def r s)
  show "map severity_score (rows sample_big) = [Some 9007199254740993, Some 7]"
    by (simp add: sample_big_def sample_def sample_101_def sample_102_def)
  show "\<not> ((9007199254740993::real) \<le> 9007199254740992)" by simp
  show "(9007199254740992::real) = 2 ^ 53" by simp
qed

section \<open>The damage-type predicate\<close>

lemma damage_step_rows:
  assumes "Damage_Type_List \<in> set (columns df)" and "dts \<noteq> []"
  shows "\<exists>out. damage_step dts df = Inr out
           \<and> rows out = filter (\<lambda>r. \<exists>d\<in>set dts. d \<in> set (damage_type_list r)) (rows df)"
  using assms by (simp add: damage_step_def mask_filter list_ex_iff)

text \<open>
  C10. The damage-type predicate compares labels with \<open>d in lst\<close>, that is by equality
  of strings: for a dataset with the derived column and a non-empty selection, filtering
  with only that selection active succeeds and keeps exactly the rows whose list holds
  some selected label verbatim.
\<close>

theorem damage_type_predicate_exact:
  "Damage_Type_List \<in> set (columns df) \<Longrightarrow> dts \<noteq> [] \<Longrightarrow>
   \<exists>out. apply_filters lib df
            \<lparr>query = [], towers = [], damage_types = dts, severity_range = None\<rparr> = Inr out
       \<and> rows out = filter (\<lambda>r. \<exists>d\<in>set dts. d \<in> set (damage_type_list r)) (rows df)"
  using damage_step_rows [of df dts] by (auto simp: apply_filters_def)

text \<open>
  A report whose list holds \<open>water leak\<close> is not matched by the label \<open>Water leak\<close>,
  although the query \<open>Water leak\<close> matches its damages text.
\<close>

theorem damage_type_predicate_exact_witness:
  "\<forall>lib. (\<exists>out. apply_filters lib sample_lower
              \<lparr>query = [], towers = [], damage_types = [''Water leak''],
               severity_range = None\<rparr>
            = Inr out \<and> rows out = [])
     \<and> damage_type_list (hd (rows sample_lower)) = [''water leak'']
     \<and> contains_ci ''Water leak'' ''water leak''"
proof (intro allI)
  fix lib :: re_library
  have col: "Damage_Type_List \<in> set (columns sample_lower)"
    by (simp add: sample_lower_def sample_def)
  have ne: "[''Water leak''] \<noteq> []" by simp
  have none: "filter (\<lambda>r. \<exists>d\<in>set [''Water leak'']. d \<in> set (damage_type_list r))
                (rows sample_lower) = []"
    by (simp add: sample_lower_def sample_def sample_101_def sample_102_def)
  have ci: "contains_ci ''Water leak'' ''water leak''" by code_simp
  from damage_type_predicate_exact [OF col ne, of lib] none ci
  show "(\<exists>out. apply_filters lib sample_lower
              \<lparr>query = [], towers = [], damage_types = [''Water leak''],
               severity_range = None\<rparr>
            = Inr out \<and> rows out = [])
     \<and> damage_type_list (hd (rows sample_lower)) = [''water leak'']
     \<and> contains_ci ''Water leak'' ''water leak''"
    by (simp add: sample_lower_def sample_101_def)
qed

section \<open>The derived list of damage types\<close>

lemma split_on_not_Nil [simp]: "split_on sep s \<noteq> []"
  by (induction s) (auto split: list.splits)

lemma join_split_on: "join_with sep (split_on sep s) = s"
proof (induction s)
  case Nil
  then show ?case by simp
next
  case (Cons c cs)
  obtain w ws where ws: "split_on sep cs = w # ws"
    by (cases "split_on sep cs") simp_all
  with Cons show ?case by (cases ws) auto
qed

lemma split_on_chars:
  "(\<forall>w\<in>set (split_on sep s). \<forall>c\<in>set w. Q c) \<longleftrightarrow> (\<forall>c\<in>set s. c = sep \<or> Q c)"
proof (induction s)
  case Nil
  then show ?case by simp
next
  case (Cons c cs)
  obtain w ws where ws: "split_on sep cs = w # ws"
    by (cases "split_on sep cs") simp_all
  with Cons show ?case by auto
qed

lemma split_on_no_sep: "w \<in> set (split_on sep s) \<Longrightarrow> sep \<notin> set w"
proof (induction s arbitrary: w)
  case Nil
  then show ?case by simp
next
  case (Cons c cs)
  obtain v vs where vs: "split_on sep cs = v # vs"
    by (cases "split_on sep cs") simp_all
  with Cons show ?case by (auto split: if_splits)
qed

lemma strip_Nil_iff: "strip w = [] \<longleftrightarrow> (\<forall>c\<in>set w. py_isspace c)"
proof
  assume "strip w = []"
  then have "dropWhile py_isspace (rev (dropWhile py_isspace w)) = []"
    by (simp only: strip_def rev_is_Nil_conv)
  then have "\<forall>c\<in>set (rev (dropWhile py_isspace w)). py_isspace c"
    by (simp only: dropWhile_eq_Nil_conv)
  then have all: "\<forall>c\<in>set (dropWhile py_isspace w). py_isspace c"
    by (simp only: set_rev)
  have "dropWhile py_isspace w = []"
  proof (rule ccontr)
    assume ne: "dropWhile py_isspace w \<noteq> []"
    then have "\<not> py_isspace (hd (dropWhile py_isspace w))" by (rule hd_dropWhile)
    moreover from ne have "hd (dropWhile py_isspace w) \<in> set (dropWhile py_isspace w)"
      by (rule hd_in_set)
    ultimately show False using all by blast
  qed
  then show "\<forall>c\<in>set w. py_isspace c" by (simp only: dropWhile_eq_Nil_conv)
next
  assume "\<forall>c\<in>set w. py_isspace c"
  then have "dropWhile py_isspace w = []" by (simp only: dropWhile_eq_Nil_conv)
  then show "strip w = []" by (simp only: strip_def rev.simps dropWhile.simps)
qed

lemma set_strip: "c \<in> set (strip w) \<Longrightarrow> c \<in> set w"
proof -
  assume "c \<in> set (strip w)"
  then have "c \<in> set (dropWhile py_isspace (rev (dropWhile py_isspace w)))"
    by (simp only: strip_def set_rev)
  then have "c \<in> set (rev (dropWhile py_isspace w))" by (rule set_dropWhileD)
  then have "c \<in> set (dropWhile py_isspace w)" by (simp only: set_rev)
  then show "c \<in> set w" by (rule set_dropWhileD)
qed

lemma last_dropWhile_ne: "dropWhile P xs \<noteq> [] \<Longrightarrow> last (dropWhile P xs) = last xs"
  by (induction xs) (auto split: if_splits)

lemma strip_ends:
  assumes "strip w \<noteq> []"
  shows "\<not> py_isspace (hd (strip w)) \<and> \<not> py_isspace (last (strip w))"
proof -
  let ?z = "dropWhile py_isspace w"
  let ?y = "dropWhile py_isspace (rev ?z)"
  from assms have y: "?y \<noteq> []" by (simp add: strip_def)
  have z: "?z \<noteq> []"
  proof
    assume "?z = []"
    then have "?y = []" by (simp only: rev.simps dropWhile.simps)
    with y show False by contradiction
  qed
  have "last (strip w) = hd ?y" using y by (simp add: strip_def last_rev)
  moreover have "\<not> py_isspace (hd ?y)" using y by (rule hd_dropWhile)
  moreover have "hd (strip w) = last ?y" using y by (simp add: strip_def hd_rev)
  moreover have "last ?y = last (rev ?z)" using y by (rule last_dropWhile_ne)
  moreover have "last (rev ?z) = hd ?z" using z by (simp add: last_rev)
  moreover have "\<not> py_isspace (hd ?z)" using z by (rule hd_dropWhile)
  ultimately show ?thesis by simp
qed

lemma strip_decompose:
  "\<exists>a b. w = a @ strip w @ b \<and> list_all py_isspace a \<and> list_all py_isspace b"
proof -
  let ?z = "dropWhile py_isspace w"
  let ?a = "takeWhile py_isspace w"
  let ?b = "rev (takeWhile py_isspace (rev ?z))"
  have "rev (takeWhile py_isspace (rev ?z) @ dropWhile py_isspace (rev ?z)) = rev (rev ?z)"
    by (simp only: takeWhile_dropWhile_id)
  then have "rev (dropWhile py_isspace (rev ?z)) @ ?b = ?z"
    by (simp only: rev_append rev_rev_ident)
  then have "?z = strip w @ ?b" by (simp only: strip_def)
  moreover have "w = ?a @ ?z" by simp
  ultimately have "w = ?a @ strip w @ ?b" by simp
  moreover have "list_all py_isspace ?a" by (auto simp: list_all_iff dest: set_takeWhileD)
  moreover have "list_all py_isspace ?b" by (auto simp: list_all_iff dest: set_takeWhileD)
  ultimately show ?thesis by blast
qed

lemma parse_damages_refines: "parse_damages x = split_trim_discard x"
  by (simp add: parse_damages_def split_trim_discard_def filter_map o_def)

lemma parse_damages_elements:
  assumes "d \<in> set (parse_damages x)"
  shows "d \<noteq> [] \<and> \<not> py_isspace (hd d) \<and> \<not> py_isspace (last d) \<and> CHR '','' \<notin> set d"
proof -
  from assms obtain w where w: "w \<in> set (split_on (CHR '','') x)" "strip w \<noteq> []" "d = strip w"
    by (auto simp: parse_damages_def)
  from w(1) have "CHR '','' \<notin> set w" by (rule split_on_no_sep)
  with set_strip [of "CHR '',''" w] have "CHR '','' \<notin> set (strip w)" by blast
  with w(2,3) strip_ends [of w] show ?thesis by simp
qed

lemma parse_damages_Nil_iff:
  "parse_damages x = [] \<longleftrightarrow> (\<forall>c\<in>set x. c = CHR '','' \<or> py_isspace c)"
proof -
  have "parse_damages x = [] \<longleftrightarrow> (\<forall>w\<in>set (split_on (CHR '','') x). strip w = [])"
    by (simp add: parse_damages_def filter_empty_conv)
  also have "\<dots> \<longleftrightarrow> (\<forall>w\<in>set (split_on (CHR '','') x). \<forall>c\<in>set w. py_isspace c)"
    by (simp add: strip_Nil_iff)
  also have "\<dots> \<longleftrightarrow> (\<forall>c\<in>set x. c = CHR '','' \<or> py_isspace c)"
    by (rule split_on_chars)
  finally show ?thesis .
qed

lemma add_damage_type_list_lists:
  "map damage_type_list (rows (add_damage_type_list df)) =
     map (\<lambda>r. if Damages_Found \<in> set (columns df)
               then parse_damages (fillna (damages_found r)) else []) (rows df)"
  by (simp add: add_damage_type_list_def o_def)

text \<open>
  C4, as amended. The derived list is the damages text split on commas, each fragment
  trimmed of white space, the empty fragments discarded: the fragments joined by commas
  give the text back and hold no comma, trimming removes a run of white space at either
  end and leaves none there, and every label of the list is non-empty, starts and ends
  with a character that is not white space and holds no comma. The text
  \<open>Water leak,  Cracked wall ,\<close> gives \<open>[Water leak, Cracked wall]\<close>. Without the
  damages column every row's list is empty, and a missing value is read as the empty
  text, whose list is empty. The list is empty if and only if the text consists of
  commas and white space only, which the empty and the missing text do.
\<close>

theorem damage_type_list_parse:
  "parse_damages x = split_trim_discard x
   \<and> join_with (CHR '','') (split_on (CHR '','') x) = x
   \<and> (\<forall>w\<in>set (split_on (CHR '','') x). CHR '','' \<notin> set w)
   \<and> (\<exists>a b. w = a @ strip w @ b \<and> list_all py_isspace a \<and> list_all py_isspace b)
   \<and> (\<forall>d\<in>set (parse_damages x).
         d \<noteq> [] \<and> \<not> py_isspace (hd d) \<and> \<not> py_isspace (last d) \<and> CHR '','' \<notin> set d)
   \<and> parse_damages ''Water leak,  Cracked wall ,'' = [''Water leak'', ''Cracked wall'']
   \<and> map damage_type_list (rows (add_damage_type_list df))
       = map (\<lambda>r. if Damages_Found \<in> set (columns df)
                   then parse_damages (fillna (damages_found r)) else []) (rows df)
   \<and> parse_damages (fillna None) = []
   \<and> (parse_damages x = [] \<longleftrightarrow> (\<forall>c\<in>set x. c = CHR '','' \<or> py_isspace c))"
proof -
  have example: "parse_damages ''Water leak,  Cracked wall ,'' = [''Water leak'', ''Cracked wall'']"
    by code_simp
  have missing: "parse_damages (fillna None) = []"
    by (simp add: fillna_def parse_damages_def strip_def)
  have no_comma: "\<forall>w\<in>set (split_on (CHR '','') x). CHR '','' \<notin> set w"
    by (blast dest: split_on_no_sep)
  have elements: "\<forall>d\<in>set (parse_damages x).
         d \<noteq> [] \<and> \<not> py_isspace (hd d) \<and> \<not> py_isspace (last d) \<and> CHR '','' \<notin> set d"
    by (blast dest: parse_damages_elements)
  from parse_damages_refines join_split_on no_comma strip_decompose elements example
    add_damage_type_list_lists missing parse_damages_Nil_iff
  show ?thesis by blast
qed

theorem damage_type_list_parse_witness:
  "split_trim_discard ''Water leak,  Cracked wall ,'' = [''Water leak'', ''Cracked wall'']
   \<and> join_with (CHR '','') (split_on (CHR '','') ''Water leak,  Cracked wall ,'')
       = ''Water leak,  Cracked wall ,''
   \<and> ''Cracked wall'' \<in> set (parse_damages ''Water leak,  Cracked wall ,'')
   \<and> \<not> py_isspace (hd ''Cracked wall'') \<and> \<not> py_isspace (last ''Cracked wall'')
   \<and> CHR '','' \<notin> set ''Cracked wall''
   \<and> ''  Cracked wall '' \<in> set (split_on (CHR '','') ''Water leak,  Cracked wall ,'')
   \<and> CHR '','' \<notin> set ''  Cracked wall ''
   \<and> map damage_type_list (rows (add_damage_type_list sample))
       = [[''Water leak''], [''Cracked wall'']]
   \<and> parse_damages ''Water leak,  Cracked wall ,'' \<noteq> []
   \<and> CHR ''W'' \<in> set ''Water leak,  Cracked wall ,''
   \<and> \<not> (CHR ''W'' = CHR '','' \<or> py_isspace CHR ''W'')"
proof -
  note t = damage_type_list_parse
    [where x = "''Water leak,  Cracked wall ,''" and df = sample and w = "[]"]
  have ex: "parse_damages ''Water leak,  Cracked wall ,'' = [''Water leak'', ''Cracked wall'']"
    using t by blast
  have mem: "''Cracked wall'' \<in> set (parse_damages ''Water leak,  Cracked wall ,'')"
    by (simp add: ex)
  have frag: "''  Cracked wall '' \<in> set (split_on (CHR '','') ''Water leak,  Cracked wall ,'')"
    by code_simp
  have rows: "map (\<lambda>r. if Damages_Found \<in> set (columns sample)
                   then parse_damages (fillna (damages_found r)) else []) (rows sample)
              = [[''Water leak''], [''Cracked wall'']]"
    by code_simp
  have w: "CHR ''W'' \<in> set ''Water leak,  Cracked wall ,''" by simp
  have ne: "parse_damages ''Water leak,  Cracked wall ,'' \<noteq> []" by (simp add: ex)
  from t ex have a: "split_trim_discard ''Water leak,  Cracked wall ,''
      = [''Water leak'', ''Cracked wall'']"
    by simp
  from t have b: "join_with (CHR '','') (split_on (CHR '','') ''Water leak,  Cracked wall ,'')
       = ''Water leak,  Cracked wall ,''"
    by blast
  from t mem have c: "\<not> py_isspace (hd ''Cracked wall'') \<and> \<not> py_isspace (last ''Cracked wall'')
       \<and> CHR '','' \<notin> set ''Cracked wall''"
    by blast
  from t frag have d: "CHR '','' \<notin> set ''  Cracked wall ''" by blast
  from t rows have e: "map damage_type_list (rows (add_damage_type_list sample))
       = [[''Water leak''], [''Cracked wall'']]"
    by simp
  from t ne w have f: "\<not> (CHR ''W'' = CHR '','' \<or> py_isspace CHR ''W'')"
    by (simp add: py_isspace_def)
  from a b mem c frag d e ne w f show ?thesis by blast
qed

text \<open>
  C4 as stated fails in its last part: a damages text that is a lone comma is neither
  empty nor missing, and its list is empty.
\<close>

theorem damage_type_list_comma_counterexample:
  "map damages_found (rows comma_only) = [Some '','']
   \<and> Damages_Found \<in> set (columns comma_only)
   \<and> map damage_type_list (rows (add_damage_type_list comma_only)) = [[]]"
  by code_simp

section \<open>The order of the loader\<close>

text \<open>
  C8. The two candidate locations are tried in their order, the compressed columnar file
  through the columnar reader and then the comma-separated file through the text
  reader. Only a file that is not there makes the loader go on to the next candidate:
  the first candidate that is there decides the result, its table when it parses and
  the reader's error, passed on to the caller, when it does not. With no candidate
  there the result is the empty table, with no row, and no error.
\<close>

theorem load_data_order:
  "load_data rd =
     (case read_parquet rd ''data/damage_data.parquet'' of
        Table t \<Rightarrow> Inr t
      | Unparsable \<Rightarrow> Inl ParseError
      | File_Not_Found \<Rightarrow>
          (case read_csv rd ''data/damage_data.csv'' of
             Table t \<Rightarrow> Inr t
           | Unparsable \<Rightarrow> Inl ParseError
           | File_Not_Found \<Rightarrow> Inr \<lparr>columns = [], rows = []\<rparr>))"
proof -
  have p: "suffix ''parquet'' ''data/damage_data.parquet''" by code_simp
  have c: "\<not> suffix ''parquet'' ''data/damage_data.csv''" by code_simp
  show ?thesis
    by (simp add: load_data_def read_path_def p c split: read_result.splits)
qed

section \<open>Where filtering departs from its contract\<close>

lemma subseq_mask: "subseq (map snd (filter fst (zip bs xs))) xs"
proof (induction xs arbitrary: bs)
  case Nil
  then show ?case by simp
next
  case (Cons x xs)
  then show ?case by (cases bs) auto
qed

lemma getitem_bool_frame:
  assumes "getitem_bool df m = Inr out"
  shows "columns out = columns df \<and> subseq (rows out) (rows df)"
proof (cases m)
  case (Aligned bs)
  with assms have "out = df\<lparr>rows := map snd (filter fst (zip bs (rows df)))\<rparr>" by auto
  then show ?thesis by (simp add: subseq_mask)
next
  case Empty_Series
  with assms show ?thesis by (auto split: if_splits)
qed

lemma text_step_frame:
  assumes "text_step lib q df = Inr out"
  shows "columns out = columns df \<and> subseq (rows out) (rows df)"
proof (cases "q = []")
  case True
  with assms show ?thesis by simp
next
  case False
  with assms obtain m where "getitem_bool df
      (series_or (str_contains m (df_get df Room_No room_no))
                 (str_contains m (df_get df Damages_Found damages_found))) = Inr out"
    by (cases "re_compile lib q") (simp_all add: text_step_def)
  then show ?thesis by (rule getitem_bool_frame)
qed

lemma tower_step_frame:
  assumes "tower_step ts df = Inr out"
  shows "columns out = columns df \<and> subseq (rows out) (rows df)"
proof (cases "ts = []")
  case True
  with assms show ?thesis by simp
next
  case False
  with assms have "getitem_bool df (isin ts (df_get df Tower tower)) = Inr out"
    by (simp add: tower_step_def)
  then show ?thesis by (rule getitem_bool_frame)
qed

lemma damage_step_frame:
  assumes "damage_step dts df = Inr out"
  shows "subseq (rows out) (rows df) \<and> (rows out \<noteq> [] \<longrightarrow> columns out = columns df)"
proof (cases "dts = [] \<or> rows df = []")
  case True
  with assms show ?thesis by (auto simp: damage_step_def split: if_splits)
next
  case False
  with assms have "getitem_bool df
      (Aligned (map (\<lambda>r. list_ex (\<lambda>d. d \<in> set (damage_type_list r)) dts) (rows df))) = Inr out"
    by (simp add: damage_step_def split: if_splits)
  then show ?thesis using getitem_bool_frame by blast
qed

lemma severity_step_frame:
  assumes "severity_step sr df = Inr out"
  shows "columns out = columns df \<and> subseq (rows out) (rows df)"
proof (cases "sr = None \<or> Severity_Score \<notin> set (columns df)")
  case True
  with assms show ?thesis by (auto simp: severity_step_def split: option.splits)
next
  case False
  then obtain rng where "sr = Some rng" and "Severity_Score \<in> set (columns df)" by auto
  with assms have "getitem_bool df
      (Aligned (map (\<lambda>r. in_range rng (severity_score r)) (rows df))) = Inr out"
    by (simp add: severity_step_def)
  then show ?thesis by (rule getitem_bool_frame)
qed

text \<open>
  What holds of every successful call: the rows returned are a subsequence of the rows
  given, and a result with a row has the columns of the input.
\<close>

lemma apply_filters_frame:
  assumes "apply_filters lib df c = Inr out"
  shows "subseq (rows out) (rows df) \<and> (rows out \<noteq> [] \<longrightarrow> columns out = columns df)"
proof -
  from assms obtain f1 f2 f3 where
    s1: "text_step lib (query c) df = Inr f1" and
    s2: "tower_step (towers c) f1 = Inr f2" and
    s3: "damage_step (damage_types c) f2 = Inr f3" and
    s4: "severity_step (severity_range c) f3 = Inr out"
    by (auto simp: apply_filters_def bind_def split: sum.splits)
  note a = text_step_frame [OF s1] and b = tower_step_frame [OF s2]
    and c = damage_step_frame [OF s3] and d = severity_step_frame [OF s4]
  have "subseq (rows out) (rows df)"
    using a b c d by (blast intro: subseq_order.trans)
  moreover have "columns out = columns df" if "rows out \<noteq> []"
  proof -
    from that d have "rows f3 \<noteq> []" by auto
    with a b c d show ?thesis by simp
  qed
  ultimately show ?thesis by blast
qed

lemma filter_all_rows:
  "\<forall>r\<in>set (rows g). P r \<Longrightarrow> g\<lparr>rows := filter P (rows g)\<rparr> = g"
  by simp

lemma text_step_stable:
  assumes ok: "text_step lib q df = Inr f" and ne: "rows f \<noteq> []"
  shows "\<exists>P. rows f = filter P (rows df) \<and> columns f = columns df
           \<and> (\<forall>g. columns g = columns df \<and> (\<forall>r\<in>set (rows g). P r)
                  \<longrightarrow> text_step lib q g = Inr g)"
proof (cases "q = []")
  case True
  with ok have "f = df" by simp
  with True show ?thesis by (intro exI [of _ "\<lambda>_. True"]) simp
next
  case False
  with ok obtain m where m: "re_compile lib q = Some m"
    by (cases "re_compile lib q") (simp_all add: text_step_def)
  have room: "Room_No \<in> set (columns df)"
  proof (rule ccontr)
    assume no_room: "Room_No \<notin> set (columns df)"
    show False
    proof (cases "Damages_Found \<in> set (columns df)")
      case True
      from text_step_no_room [OF m False no_room True] ok ne show False by auto
    next
      case no_dmg: False
      with ok False m no_room have "getitem_bool df Empty_Series = Inr f"
        by (simp add: text_step_def df_get_def)
      with ne show False by (auto split: if_splits)
    qed
  qed
  let ?P = "\<lambda>r. cell_match m (room_no r)
           \<or> (Damages_Found \<in> set (columns df) \<and> cell_match m (damages_found r))"
  from text_step_mask [OF m False room] ok have f: "f = df\<lparr>rows := filter ?P (rows df)\<rparr>"
    by simp
  have "text_step lib q g = Inr g"
    if g: "columns g = columns df" and all: "\<forall>r\<in>set (rows g). ?P r" for g
  proof -
    from room g have "Room_No \<in> set (columns g)" by simp
    from text_step_mask [OF m False this] have
      "text_step lib q g = Inr (g\<lparr>rows := filter ?P (rows g)\<rparr>)" by (simp only: g)
    also have "g\<lparr>rows := filter ?P (rows g)\<rparr> = g" using all by (rule filter_all_rows)
    finally show ?thesis .
  qed
  with f show ?thesis by (intro exI [of _ ?P]) simp
qed

lemma tower_step_stable:
  assumes ok: "tower_step ts df = Inr f" and ne: "rows f \<noteq> []"
  shows "\<exists>P. rows f = filter P (rows df) \<and> columns f = columns df
           \<and> (\<forall>g. columns g = columns df \<and> (\<forall>r\<in>set (rows g). P r) \<longrightarrow> tower_step ts g = Inr g)"
proof (cases "ts = []")
  case True
  with ok have "f = df" by simp
  with True show ?thesis by (intro exI [of _ "\<lambda>_. True"]) simp
next
  case False
  have col: "Tower \<in> set (columns df)"
  proof (rule ccontr)
    assume "\<not> ?thesis"
    with ok False have "getitem_bool df Empty_Series = Inr f"
      by (simp add: tower_step_def df_get_def)
    with ne show False by (auto split: if_splits)
  qed
  let ?P = "\<lambda>r. case tower r of None \<Rightarrow> False | Some s \<Rightarrow> s \<in> set ts"
  have step: "tower_step ts h = Inr (h\<lparr>rows := filter ?P (rows h)\<rparr>)"
    if "columns h = columns df" for h
    using that col False by (simp add: tower_step_def df_get_def mask_filter o_def)
  from step [of df] ok have f: "f = df\<lparr>rows := filter ?P (rows df)\<rparr>" by simp
  have "tower_step ts g = Inr g" if "columns g = columns df" and "\<forall>r\<in>set (rows g). ?P r" for g
    using step [OF that(1)] filter_all_rows [OF that(2)] by simp
  with f show ?thesis by (intro exI [of _ ?P]) simp
qed

lemma damage_step_stable:
  assumes ok: "damage_step dts df = Inr f" and ne: "rows f \<noteq> []"
  shows "\<exists>P. rows f = filter P (rows df) \<and> columns f = columns df
           \<and> (\<forall>g. columns g = columns df \<and> rows g \<noteq> [] \<and> (\<forall>r\<in>set (rows g). P r)
                  \<longrightarrow> damage_step dts g = Inr g)"
proof (cases "dts = []")
  case True
  with ok have "f = df" by simp
  with True show ?thesis by (intro exI [of _ "\<lambda>_. True"]) simp
next
  case False
  from ok ne False have col: "Damage_Type_List \<in> set (columns df)"
    by (auto simp: damage_step_def split: if_splits)
  let ?P = "\<lambda>r. list_ex (\<lambda>d. d \<in> set (damage_type_list r)) dts"
  have step: "damage_step dts h = Inr (h\<lparr>rows := filter ?P (rows h)\<rparr>)"
    if "columns h = columns df" and "rows h \<noteq> []" for h
    using that col False by (simp add: damage_step_def mask_filter)
  from ok ne False col have "rows df \<noteq> []"
    by (auto simp: damage_step_def split: if_splits)
  with step [of df] ok have f: "f = df\<lparr>rows := filter ?P (rows df)\<rparr>" by simp
  have "damage_step dts g = Inr g"
    if "columns g = columns df" and "rows g \<noteq> []" and "\<forall>r\<in>set (rows g). ?P r" for g
    using step [OF that(1,2)] filter_all_rows [OF that(3)] by simp
  with f show ?thesis by (intro exI [of _ ?P]) simp
qed

lemma severity_step_stable:
  assumes ok: "severity_step sr df = Inr f"
  shows "\<exists>P. rows f = filter P (rows df) \<and> columns f = columns df
           \<and> (\<forall>g. columns g = columns df \<and> (\<forall>r\<in>set (rows g). P r)
                  \<longrightarrow> severity_step sr g = Inr g)"
proof (cases "sr = None \<or> Severity_Score \<notin> set (columns df)")
  case True
  with ok have "f = df" by (auto simp: severity_step_def split: option.splits)
  moreover from True have "severity_step sr g = Inr g" if "columns g = columns df" for g
    using that by (auto simp: severity_step_def split: option.splits)
  ultimately show ?thesis by (intro exI [of _ "\<lambda>_. True"]) simp
next
  case False
  then obtain rng where rng: "sr = Some rng" and col: "Severity_Score \<in> set (columns df)"
    by auto
  let ?P = "\<lambda>r. in_range rng (severity_score r)"
  have step: "severity_step sr h = Inr (h\<lparr>rows := filter ?P (rows h)\<rparr>)"
    if "columns h = columns df" for h
    using that col rng by (simp add: severity_step_def mask_filter)
  from step [of df] ok have f: "f = df\<lparr>rows := filter ?P (rows df)\<rparr>" by simp
  have "severity_step sr g = Inr g" if "columns g = columns df" and "\<forall>r\<in>set (rows g). ?P r"
    for g
    using step [OF that(1)] filter_all_rows [OF that(2)] by simp
  with f show ?thesis by (intro exI [of _ ?P]) simp
qed

text \<open>
  Apart from the loss of the columns, filtering twice is filtering once: a result with a
  row is returned unchanged when it is filtered again with the same criteria.
\<close>

lemma apply_filters_again:
  assumes ok: "apply_filters lib df c = Inr out" and ne: "rows out \<noteq> []"
  shows "apply_filters lib out c = Inr out"
proof -
  from ok obtain f1 f2 f3 where
    s1: "text_step lib (query c) df = Inr f1" and
    s2: "tower_step (towers c) f1 = Inr f2" and
    s3: "damage_step (damage_types c) f2 = Inr f3" and
    s4: "severity_step (severity_range c) f3 = Inr out"
    by (auto simp: apply_filters_def bind_def split: sum.splits)
  from severity_step_stable [OF s4] obtain P4 where
    r4: "rows out = filter P4 (rows f3)" and c4: "columns out = columns f3" and
    k4: "\<And>g. columns g = columns f3 \<Longrightarrow> \<forall>r\<in>set (rows g). P4 r
           \<Longrightarrow> severity_step (severity_range c) g = Inr g"
    by blast
  from r4 ne have ne3: "rows f3 \<noteq> []" by auto
  from damage_step_stable [OF s3 ne3] obtain P3 where
    r3: "rows f3 = filter P3 (rows f2)" and c3: "columns f3 = columns f2" and
    k3: "\<And>g. columns g = columns f2 \<Longrightarrow> rows g \<noteq> [] \<Longrightarrow> \<forall>r\<in>set (rows g). P3 r
           \<Longrightarrow> damage_step (damage_types c) g = Inr g"
    by blast
  from r3 ne3 have ne2: "rows f2 \<noteq> []" by auto
  from tower_step_stable [OF s2 ne2] obtain P2 where
    r2: "rows f2 = filter P2 (rows f1)" and c2: "columns f2 = columns f1" and
    k2: "\<And>g. columns g = columns f1 \<Longrightarrow> \<forall>r\<in>set (rows g). P2 r
           \<Longrightarrow> tower_step (towers c) g = Inr g"
    by blast
  from r2 ne2 have ne1: "rows f1 \<noteq> []" by auto
  from text_step_stable [OF s1 ne1] obtain P1 where
    r1: "rows f1 = filter P1 (rows df)" and c1: "columns f1 = columns df" and
    k1: "\<And>g. columns g = columns df \<Longrightarrow> \<forall>r\<in>set (rows g). P1 r
           \<Longrightarrow> text_step lib (query c) g = Inr g"
    by blast
  have all: "\<forall>r\<in>set (rows out). P1 r \<and> P2 r \<and> P3 r \<and> P4 r"
    by (simp add: r4 r3 r2 r1)
  have "text_step lib (query c) out = Inr out" using all by (intro k1) (simp_all add: c4 c3 c2 c1)
  moreover have "tower_step (towers c) out = Inr out"
    using all by (intro k2) (simp_all add: c4 c3 c2)
  moreover have "damage_step (damage_types c) out = Inr out"
    using all ne by (intro k3) (simp_all add: c4 c3)
  moreover have "severity_step (severity_range c) out = Inr out"
    using all by (intro k4) (simp_all add: c4)
  ultimately show ?thesis by (simp add: apply_filters_def)
qed

text \<open>
  C6 fails on the code. A query that matches no row leaves a frame with no row; the
  damage-type step, given a frame with no row, returns a frame with no column; filtering
  that result again with the same criteria looks the derived column up and fails.
\<close>

theorem idempotence_fails_on_sample:
  "apply_filters lib sample
     \<lparr>query = ''zzz'', towers = [''A'', ''B''], damage_types = [''Water leak''],
      severity_range = Some (0, 10)\<rparr>
     = Inr \<lparr>columns = [], rows = []\<rparr>
   \<and> apply_filters lib \<lparr>columns = [], rows = []\<rparr>
     \<lparr>query = ''zzz'', towers = [''A'', ''B''], damage_types = [''Water leak''],
      severity_range = Some (0, 10)\<rparr>
     = Inl KeyError"
  by code_simp

text \<open>
  C7 fails on the code in its last part. With a query that matches no row and a damage
  type selected the result has none of the five columns of the input, while the text,
  tower and severity steps keep the columns of a frame with no row.
\<close>

theorem columns_lost_on_sample:
  "apply_filters lib sample
     \<lparr>query = ''zzz'', towers = [], damage_types = [''Cracked wall''], severity_range = None\<rparr>
     = Inr \<lparr>columns = [], rows = []\<rparr>
   \<and> columns sample = [Room_No, Tower, Damages_Found, Severity_Score, Damage_Type_List]
   \<and> apply_filters lib sample
     \<lparr>query = ''zzz'', towers = [''A''], damage_types = [], severity_range = Some (0, 10)\<rparr>
     = Inr (sample\<lparr>rows := []\<rparr>)"
  by code_simp

text \<open>
  C9 fails on the code. Without both text columns the mask of an active query is the
  fallback series, which has no entry and cannot index a frame that has a row; without
  the tower column the same holds of an active tower selection. Without the damages
  column alone the query is matched against the room number, and without the
  room-number column alone no exception is raised and no row is kept, whatever the
  damages text holds.
\<close>

theorem absent_columns_raise:
  "apply_filters lib no_text_columns
     \<lparr>query = ''leak'', towers = [], damage_types = [], severity_range = None\<rparr>
     = Inl IndexingError
   \<and> apply_filters lib
       (sample\<lparr>columns := [Room_No, Damages_Found, Severity_Score, Damage_Type_List]\<rparr>)
       \<lparr>query = [], towers = [''A'', ''B''], damage_types = [], severity_range = Some (0, 10)\<rparr>
     = Inl IndexingError
   \<and> apply_filters lib
       (sample\<lparr>columns := [Room_No, Tower, Severity_Score, Damage_Type_List]\<rparr>)
       \<lparr>query = ''101'', towers = [], damage_types = [], severity_range = None\<rparr>
     = Inr (sample\<lparr>columns := [Room_No, Tower, Severity_Score, Damage_Type_List],
                   rows := [sample_101]\<rparr>)
   \<and> apply_filters lib
       (sample\<lparr>columns := [Tower, Damages_Found, Severity_Score, Damage_Type_List]\<rparr>)
       \<lparr>query = ''leak'', towers = [], damage_types = [], severity_range = None\<rparr>
     = Inr (sample\<lparr>columns := [Tower, Damages_Found, Severity_Score, Damage_Type_List],
                   rows := []\<rparr>)"
  by code_simp

end
